theory Spec2Isabelle
  imports Complex_Main "HOL-Library.Word"
begin

section \<open>Data model\<close>

text \<open>
  The simulator computes on IEEE doubles. The embedding computes on exact reals and
  reports, as a value, every point where the double computation leaves the reals or
  the C++ program leaves its defined behaviour:
  \<^item> \<open>DivisionByZero\<close>: a division whose divisor is 0. The double result is an infinity
    or a NaN and the program goes on computing with it; the reals have no such value, so
    the model stops there.
  \<^item> \<open>ConversionOutOfRange\<close>: a double converted to \<open>unsigned int\<close> whose truncated
    value that type cannot hold (undefined behaviour).
  \<^item> \<open>IndexOutOfBounds\<close>: an unchecked \<open>operator[]\<close> past the end (undefined
    behaviour).
  \<^item> \<open>Overflow\<close>: a subtraction whose double result is an infinity, where the map
    computes its indices; what the program converts to \<open>unsigned int\<close> from it is an
    infinity or a NaN (undefined behaviour).
  Rounding is not modelled. Overflow is modelled in the index computation of the map, where
  it decides whether the program is defined; elsewhere an operation stands for its exact
  result.
\<close>

datatype fault = DivisionByZero | ConversionOutOfRange | IndexOutOfBounds | Overflow

record Body =
  x :: real
  y :: real
  z :: real
  vx :: real
  vy :: real
  vz :: real
  mass :: real

type_synonym uint = "32 word"

section \<open>Force law and distances\<close>

definition newton_law_of_universal_gravitation ::
  "real \<Rightarrow> real \<Rightarrow> real \<Rightarrow> real \<Rightarrow> fault + real" where
  "newton_law_of_universal_gravitation gravitational_constant mass1 mass2
       distance_between_the_two_mass_centers =
     (if distance_between_the_two_mass_centers = 0 then Inl DivisionByZero
      else Inr (gravitational_constant *
                ((mass1 * mass2) / distance_between_the_two_mass_centers)))"

definition magnitude :: "real \<Rightarrow> real \<Rightarrow> real \<Rightarrow> real" where
  "magnitude a b c = sqrt (a * a + b * b + c * c)"

definition distance :: "real \<Rightarrow> real \<Rightarrow> real \<Rightarrow> real \<Rightarrow> real \<Rightarrow> real \<Rightarrow> real" where
  "distance x1 y1 z1 x2 y2 z2 = magnitude (x1 - x2) (y1 - y2) (z1 - z2)"

section \<open>The velocity update of \<open>main\<close>\<close>

text \<open>
  The body of the inner loop, for the pair \<open>(i1, i2)\<close>: \<open>bodies_old\<close> is the snapshot,
  \<open>bodies\<close> the live array. The divisions are taken in the order of the source: by the
  distance, by \<open>magnitude1\<close>, by the mass of the first body, by the mass of the second.
\<close>

definition pair_update :: "real \<Rightarrow> Body list \<Rightarrow> Body list \<Rightarrow> nat \<Rightarrow> nat \<Rightarrow> fault + Body list" where
  "pair_update gravitational_constant bodies_old bodies i1 i2 =
     (let distance_between_the_two_mass_centers =
            distance (x (bodies_old ! i1)) (y (bodies_old ! i1)) (z (bodies_old ! i1))
                     (x (bodies_old ! i2)) (y (bodies_old ! i2)) (z (bodies_old ! i2))
      in case newton_law_of_universal_gravitation gravitational_constant
                (mass (bodies_old ! i1)) (mass (bodies_old ! i2))
                distance_between_the_two_mass_centers of
           Inl e \<Rightarrow> Inl e
         | Inr force \<Rightarrow>
            (let x1 = x (bodies_old ! i2) - x (bodies_old ! i1);
                 y1 = y (bodies_old ! i2) - y (bodies_old ! i1);
                 z1 = z (bodies_old ! i2) - z (bodies_old ! i1);
                 magnitude1 = magnitude x1 y1 z1
             in if magnitude1 = 0 then Inl DivisionByZero
                else
                 (let x1_normalized = x1 / magnitude1;
                      y1_normalized = y1 / magnitude1;
                      z1_normalized = z1 / magnitude1;
                      x1_force = x1_normalized * force;
                      y1_force = y1_normalized * force;
                      z1_force = z1_normalized * force;
                      x2_force = - x1_force;
                      y2_force = - y1_force;
                      z2_force = - z1_force
                  in if mass (bodies ! i1) = 0 then Inl DivisionByZero
                     else
                      (let bodies1 = bodies[i1 := (bodies ! i1)
                             \<lparr>vx := vx (bodies ! i1) + x1_force / mass (bodies ! i1),
                              vy := vy (bodies ! i1) + y1_force / mass (bodies ! i1),
                              vz := vz (bodies ! i1) + z1_force / mass (bodies ! i1)\<rparr>]
                       in if mass (bodies1 ! i2) = 0 then Inl DivisionByZero
                          else Inr (bodies1[i2 := (bodies1 ! i2)
                             \<lparr>vx := vx (bodies1 ! i2) + x2_force / mass (bodies1 ! i2),
                              vy := vy (bodies1 ! i2) + y2_force / mass (bodies1 ! i2),
                              vz := vz (bodies1 ! i2) + z2_force / mass (bodies1 ! i2)\<rparr>])))))"

text \<open>
  The two loops, on \<open>uint\<close> counters as in the source: \<open>i2\<close> runs from \<open>i1 + 1\<close> while
  \<open>i2 < n\<close>, \<open>i1\<close> from 0 while \<open>i1 < n - 1\<close>, where \<open>n - 1\<close> wraps for \<open>n = 0\<close>.
\<close>

function inner_loop ::
  "real \<Rightarrow> Body list \<Rightarrow> uint \<Rightarrow> uint \<Rightarrow> uint \<Rightarrow> Body list \<Rightarrow> fault + Body list" where
  "inner_loop gravitational_constant bodies_old n i1 i2 bodies =
     (if i2 < n then
        (case pair_update gravitational_constant bodies_old bodies (unat i1) (unat i2) of
           Inl e \<Rightarrow> Inl e
         | Inr bodies' \<Rightarrow> inner_loop gravitational_constant bodies_old n i1 (i2 + 1) bodies')
      else Inr bodies)"
  by pat_completeness auto
termination
proof (relation "measure (\<lambda>(g, bodies_old, n, i1, i2, bodies). unat n - unat i2)")
  fix n i2 :: uint
  assume "i2 < n"
  then have "unat i2 < unat n"
    by (simp add: word_less_nat_alt)
  moreover have "unat n < 2 ^ 32"
    using unsigned_less [of n] by simp
  ultimately have "unat (i2 + 1) = Suc (unat i2)"
    by (simp add: unat_word_ariths)
  with \<open>unat i2 < unat n\<close>
  show "\<And>g bodies_old i1 bodies bodies'.
          ((g, bodies_old, n, i1, i2 + 1, bodies'), (g, bodies_old, n, i1, i2, bodies))
          \<in> measure (\<lambda>(g, bodies_old, n, i1, i2, bodies). unat n - unat i2)"
    by simp
qed simp

function outer_loop ::
  "real \<Rightarrow> Body list \<Rightarrow> uint \<Rightarrow> uint \<Rightarrow> Body list \<Rightarrow> fault + Body list" where
  "outer_loop gravitational_constant bodies_old n i1 bodies =
     (if i1 < n - 1 then
        (case inner_loop gravitational_constant bodies_old n i1 (i1 + 1) bodies of
           Inl e \<Rightarrow> Inl e
         | Inr bodies' \<Rightarrow> outer_loop gravitational_constant bodies_old n (i1 + 1) bodies')
      else Inr bodies)"
  by pat_completeness auto
termination
proof (relation "measure (\<lambda>(g, bodies_old, n, i1, bodies). unat (n - 1) - unat i1)")
  fix n i1 :: uint
  assume "i1 < n - 1"
  then have "unat i1 < unat (n - 1)"
    by (simp add: word_less_nat_alt)
  moreover have "unat (n - 1) < 2 ^ 32"
    using unsigned_less [of "n - 1"] by simp
  ultimately have "unat (i1 + 1) = Suc (unat i1)"
    by (simp add: unat_word_ariths)
  with \<open>unat i1 < unat (n - 1)\<close>
  show "\<And>g bodies_old bodies bodies'.
          ((g, bodies_old, n, i1 + 1, bodies'), (g, bodies_old, n, i1, bodies))
          \<in> measure (\<lambda>(g, bodies_old, n, i1, bodies). unat (n - 1) - unat i1)"
    by simp
qed simp

text \<open>
  The block that updates the velocities: the snapshot is the array as it is when the
  block starts, and \<open>n\<close> is \<open>bodies.size()\<close> stored in a \<open>uint\<close>.
\<close>

definition update_velocities :: "real \<Rightarrow> Body list \<Rightarrow> fault + Body list" where
  "update_velocities gravitational_constant bodies =
     (let bodies_old = bodies;
          n = (of_nat (length bodies) :: uint)
      in outer_loop gravitational_constant bodies_old n 0 bodies)"

section \<open>Position update and recentering\<close>

definition update_positions :: "Body list \<Rightarrow> Body list" where
  "update_positions bodies =
     map (\<lambda>body. body\<lparr>x := x body + vx body, y := y body + vy body, z := z body + vz body\<rparr>)
       bodies"

text \<open>
  The sums are accumulated front to back, then divided by the constant
  \<open>number_of_bodies\<close>, which is also the size of the array.
\<close>

definition center_bodies :: "uint \<Rightarrow> Body list \<Rightarrow> fault + Body list" where
  "center_bodies number_of_bodies bodies =
     (let xsum = foldl (\<lambda>s body. s + x body) 0 bodies;
          ysum = foldl (\<lambda>s body. s + y body) 0 bodies;
          zsum = foldl (\<lambda>s body. s + z body) 0 bodies
      in if number_of_bodies = 0 then Inl DivisionByZero
         else
          (let cx = xsum / real (unat number_of_bodies);
               cy = ysum / real (unat number_of_bodies);
               cz = zsum / real (unat number_of_bodies)
           in Inr (map (\<lambda>body. body\<lparr>x := x body - cx, y := y body - cy, z := z body - cz\<rparr>)
                     bodies)))"

section \<open>Initialisation\<close>

text \<open>
  \<open>rand\<close> is the C library's generator: a step on its hidden state that returns an
  \<open>int\<close>. \<open>RAND_MAX\<close> is the library's constant; both are parameters here. Each body
  draws seven numbers, in the order of the source.
\<close>

definition rand01double :: "int \<Rightarrow> ('s \<Rightarrow> int \<times> 's) \<Rightarrow> 's \<Rightarrow> real \<times> 's" where
  "rand01double RAND_MAX rand s =
     (let (r, s') = rand s in (real_of_int r / real_of_int RAND_MAX, s'))"

definition randn1to1double :: "int \<Rightarrow> ('s \<Rightarrow> int \<times> 's) \<Rightarrow> 's \<Rightarrow> real \<times> 's" where
  "randn1to1double RAND_MAX rand s =
     (let (r, s') = rand01double RAND_MAX rand s in (r * 2 - 1, s'))"

definition randndouble :: "int \<Rightarrow> ('s \<Rightarrow> int \<times> 's) \<Rightarrow> uint \<Rightarrow> 's \<Rightarrow> real \<times> 's" where
  "randndouble RAND_MAX rand number_of_bodies s =
     (let (r, s') = randn1to1double RAND_MAX rand s
      in (r * real (unat number_of_bodies), s'))"

definition init_body :: "int \<Rightarrow> ('s \<Rightarrow> int \<times> 's) \<Rightarrow> uint \<Rightarrow> 's \<Rightarrow> Body \<times> 's" where
  "init_body RAND_MAX rand number_of_bodies s0 =
     (let (px, s1) = randndouble RAND_MAX rand number_of_bodies s0;
          (py, s2) = randndouble RAND_MAX rand number_of_bodies s1;
          (pz, s3) = randndouble RAND_MAX rand number_of_bodies s2;
          (bvx, s4) = rand01double RAND_MAX rand s3;
          (bvy, s5) = rand01double RAND_MAX rand s4;
          (bvz, s6) = rand01double RAND_MAX rand s5;
          (bmass, s7) = rand01double RAND_MAX rand s6
      in (\<lparr>x = px, y = py, z = pz, vx = bvx, vy = bvy, vz = bvz, mass = bmass\<rparr>, s7))"

fun init_loop :: "int \<Rightarrow> ('s \<Rightarrow> int \<times> 's) \<Rightarrow> uint \<Rightarrow> nat \<Rightarrow> 's \<Rightarrow> Body list \<times> 's" where
  "init_loop RAND_MAX rand number_of_bodies 0 s = ([], s)"
| "init_loop RAND_MAX rand number_of_bodies (Suc k) s =
     (let (body, s') = init_body RAND_MAX rand number_of_bodies s;
          (rest, s'') = init_loop RAND_MAX rand number_of_bodies k s'
      in (body # rest, s''))"

definition init_bodies :: "int \<Rightarrow> ('s \<Rightarrow> int \<times> 's) \<Rightarrow> uint \<Rightarrow> 's \<Rightarrow> Body list \<times> 's" where
  "init_bodies RAND_MAX rand number_of_bodies s =
     init_loop RAND_MAX rand number_of_bodies (unat number_of_bodies) s"

section \<open>The map of the bodies\<close>

text \<open>
  \<open>std::numeric_limits<double>::min()\<close> is the smallest positive normal double,
  \<open>max()\<close> the largest finite one.
\<close>

definition DBL_MIN :: real where
  "DBL_MIN = 1 / 2 ^ 1022"

definition DBL_MAX :: real where
  "DBL_MAX = (2 - 1 / 2 ^ 52) * 2 ^ 1023"

record bounds =
  highest_x :: real
  highest_y :: real
  highest_z :: real
  lowest_x :: real
  lowest_y :: real
  lowest_z :: real

fun bounds_loop :: "Body list \<Rightarrow> bounds \<Rightarrow> bounds" where
  "bounds_loop [] bd = bd"
| "bounds_loop (body # rest) bd =
     bounds_loop rest
       \<lparr>highest_x = (if x body > highest_x bd then x body else highest_x bd),
        highest_y = (if y body > highest_y bd then y body else highest_y bd),
        highest_z = (if z body > highest_z bd then z body else highest_z bd),
        lowest_x = (if x body < lowest_x bd then x body else lowest_x bd),
        lowest_y = (if y body < lowest_y bd then y body else lowest_y bd),
        lowest_z = (if z body < lowest_z bd then z body else lowest_z bd)\<rparr>"

definition get_bounds :: "Body list \<Rightarrow> bounds" where
  "get_bounds bodies =
     bounds_loop bodies
       \<lparr>highest_x = DBL_MIN, highest_y = DBL_MIN, highest_z = DBL_MIN,
        lowest_x = DBL_MAX, lowest_y = DBL_MAX, lowest_z = DBL_MAX\<rparr>"

definition z_characters :: string where
  "z_characters =
     [CHR ''.'', CHR 0x27, CHR '':'', CHR ''-'', CHR ''_'', CHR ''^'', CHR ''+'', CHR ''='',
      CHR ''~'', CHR ''*'', CHR ''o'', CHR ''O'', CHR ''#'', CHR ''%'', CHR ''&'', CHR ''@'']"

definition z_size :: uint where
  "z_size = of_nat (length z_characters)"

text \<open>C's \<open>round\<close>: to the nearest integer, halfway cases away from zero.\<close>

definition round_double :: "real \<Rightarrow> real" where
  "round_double r =
     (if r < 0 then - real_of_int \<lfloor>- r + 1 / 2\<rfloor> else real_of_int \<lfloor>r + 1 / 2\<rfloor>)"

text \<open>
  The implicit conversion of a double to \<open>uint\<close> truncates towards zero; it is defined
  when the truncated value is a \<open>uint\<close>.
\<close>

definition to_uint :: "real \<Rightarrow> fault + uint" where
  "to_uint r =
     (if - 1 < r \<and> r < 2 ^ 32 then Inr (of_int (if r < 0 then \<lceil>r\<rceil> else \<lfloor>r\<rfloor>))
      else Inl ConversionOutOfRange)"

text \<open>
  The exact result of an operation on two doubles is rounded to the nearest double, and to
  an infinity when its magnitude reaches the largest finite double plus half a unit in its
  last place, \<open>2 ^ 1024 - 2 ^ 970\<close>.
\<close>

definition overflows :: "real \<Rightarrow> bool" where
  "overflows r \<longleftrightarrow> 2 ^ 1024 - 2 ^ 970 \<le> \<bar>r\<bar>"

text \<open>
  The inverse lerp of one coordinate, scaled by \<open>k\<close> (a \<open>uint\<close> converted to double) and
  stored in a \<open>uint\<close>.
  \<^item> When \<open>v - lowest\<close> overflows, the quotient is an infinity or a NaN, and so is the
    product, whatever the divisor and \<open>k\<close> are: the conversion is undefined.
  \<^item> When only \<open>highest - lowest\<close> overflows, the quotient of a finite number by an
    infinity is zero, and the index is 0.
  \<^item> A zero extent makes the quotient a NaN or an infinity.
\<close>

definition map_index :: "real \<Rightarrow> real \<Rightarrow> real \<Rightarrow> uint \<Rightarrow> fault + uint" where
  "map_index v lowest highest k =
     (if overflows (v - lowest) then Inl Overflow
      else if overflows (highest - lowest) then Inr 0
      else if highest - lowest = 0 then Inl DivisionByZero
      else to_uint (round_double ((v - lowest) / (highest - lowest) * real (unat k))))"

text \<open>
  The loop that places the bodies. \<open>body_indices\<close> is the first half of its body, the
  three indices \<open>x\<close>, \<open>y\<close>, \<open>z\<close> of one body; the second half is the write
  \<open>lines[y][x] = z_characters[z]\<close>, none of whose three subscripts is checked.
\<close>

definition body_indices :: "uint \<Rightarrow> uint \<Rightarrow> bounds \<Rightarrow> Body \<Rightarrow> fault + (uint \<times> uint \<times> uint)" where
  "body_indices height width bd body =
     (case map_index (x body) (lowest_x bd) (highest_x bd) (width - 1) of
        Inl e \<Rightarrow> Inl e
      | Inr xi \<Rightarrow>
     (case map_index (y body) (lowest_y bd) (highest_y bd) (height - 1) of
        Inl e \<Rightarrow> Inl e
      | Inr yi \<Rightarrow>
     (case map_index (z body) (lowest_z bd) (highest_z bd) (z_size - 1) of
        Inl e \<Rightarrow> Inl e
      | Inr zi \<Rightarrow> Inr (xi, yi, zi))))"

fun plot_bodies :: "uint \<Rightarrow> uint \<Rightarrow> bounds \<Rightarrow> Body list \<Rightarrow> string list \<Rightarrow> fault + string list" where
  "plot_bodies height width bd [] lines = Inr lines"
| "plot_bodies height width bd (body # rest) lines =
     (case body_indices height width bd body of
        Inl e \<Rightarrow> Inl e
      | Inr (xi, yi, zi) \<Rightarrow>
         if unat zi < length z_characters \<and> unat yi < length lines
              \<and> unat xi < length (lines ! unat yi)
         then plot_bodies height width bd rest
                (lines[unat yi := (lines ! unat yi)[unat xi := z_characters ! unat zi]])
         else Inl IndexOutOfBounds)"

definition map_lines :: "uint \<Rightarrow> uint \<Rightarrow> Body list \<Rightarrow> fault + string list" where
  "map_lines height width bodies =
     plot_bodies height width (get_bounds bodies) bodies
       (replicate (unat height) (replicate (unat width) CHR '' ''))"

definition create_map_of_bodies :: "uint \<Rightarrow> uint \<Rightarrow> Body list \<Rightarrow> fault + string" where
  "create_map_of_bodies height width bodies =
     (case map_lines height width bodies of
        Inl e \<Rightarrow> Inl e
      | Inr lines \<Rightarrow> Inr (foldl (\<lambda>output line. output @ line @ [CHR 0x0A]) [] lines))"

section \<open>One iteration of the update loop\<close>

text \<open>
  What \<open>main\<close> holds between iterations: the array, the counter and the hidden state of
  the random generator. The terminal size (two \<open>int\<close>s) is read afresh in each iteration;
  the text written to the console is returned.
\<close>

record 's main_state =
  st_bodies :: "Body list"
  st_updateCount :: uint
  st_rand :: 's

datatype printed = Text string | Count uint

definition print_map :: "int \<Rightarrow> int \<Rightarrow> 's main_state \<Rightarrow> fault + string" where
  "print_map height width st =
     create_map_of_bodies (of_int height) (of_int width) (st_bodies st)"

definition update ::
  "real \<Rightarrow> uint \<Rightarrow> int \<Rightarrow> int \<Rightarrow> 's main_state \<Rightarrow> fault + (printed list \<times> 's main_state)" where
  "update gravitational_constant number_of_bodies height width st =
     (case print_map height width st of
        Inl e \<Rightarrow> Inl e
      | Inr text \<Rightarrow>
     (case update_velocities gravitational_constant (update_positions (st_bodies st)) of
        Inl e \<Rightarrow> Inl e
      | Inr bodies1 \<Rightarrow>
     (case center_bodies number_of_bodies bodies1 of
        Inl e \<Rightarrow> Inl e
      | Inr bodies2 \<Rightarrow>
         Inr ([Text text, Text [CHR 0x0D], Count (st_updateCount st)],
              st\<lparr>st_bodies := bodies2, st_updateCount := st_updateCount st + 1\<rparr>))))"

section \<open>Notions used to state the properties\<close>

text \<open>
  The pairs the two loops visit, in the order of the visits, and the loop body run over
  a list of pairs; the total momentum; the position of a body.
\<close>

fun apply_pairs :: "real \<Rightarrow> Body list \<Rightarrow> (nat \<times> nat) list \<Rightarrow> Body list \<Rightarrow> fault + Body list" where
  "apply_pairs g bodies_old [] bodies = Inr bodies"
| "apply_pairs g bodies_old ((i1, i2) # ps) bodies =
     (case pair_update g bodies_old bodies i1 i2 of
        Inl e \<Rightarrow> Inl e
      | Inr bodies' \<Rightarrow> apply_pairs g bodies_old ps bodies')"

definition all_pairs :: "nat \<Rightarrow> (nat \<times> nat) list" where
  "all_pairs n = concat (map (\<lambda>i. map (Pair i) [Suc i..<n]) [0..<n - 1])"

definition momentum :: "Body list \<Rightarrow> real \<times> real \<times> real" where
  "momentum bodies =
     (sum_list (map (\<lambda>body. mass body * vx body) bodies),
      sum_list (map (\<lambda>body. mass body * vy body) bodies),
      sum_list (map (\<lambda>body. mass body * vz body) bodies))"

definition position :: "Body \<Rightarrow> real \<times> real \<times> real" where
  "position body = (x body, y body, z body)"

text \<open>A body at rest, for the examples.\<close>

definition resting :: "real \<Rightarrow> real \<Rightarrow> real \<Rightarrow> real \<Rightarrow> Body" where
  "resting a b c m = \<lparr>x = a, y = b, z = c, vx = 0, vy = 0, vz = 0, mass = m\<rparr>"

text \<open>The arithmetic mean of the positions.\<close>

definition centroid :: "Body list \<Rightarrow> real \<times> real \<times> real" where
  "centroid bodies =
     (sum_list (map x bodies) / real (length bodies),
      sum_list (map y bodies) / real (length bodies),
      sum_list (map z bodies) / real (length bodies))"

text \<open>Two random sources for the examples: one that returns 0 at every call, and a counter.\<close>

definition rand_zero :: "unit \<Rightarrow> int \<times> unit" where
  "rand_zero s = (0, s)"

definition rand_step :: "nat \<Rightarrow> int \<times> nat" where
  "rand_step s = (int ((s * 7919) mod 32768), s + 1)"

text \<open>The ranges of the fields of a body that the initialisation produces.\<close>

definition within_bounds :: "uint \<Rightarrow> Body \<Rightarrow> bool" where
  "within_bounds number_of_bodies body \<longleftrightarrow>
     - real (unat number_of_bodies) \<le> x body \<and> x body \<le> real (unat number_of_bodies)
   \<and> - real (unat number_of_bodies) \<le> y body \<and> y body \<le> real (unat number_of_bodies)
   \<and> - real (unat number_of_bodies) \<le> z body \<and> z body \<le> real (unat number_of_bodies)
   \<and> 0 \<le> vx body \<and> vx body \<le> 1
   \<and> 0 \<le> vy body \<and> vy body \<le> 1
   \<and> 0 \<le> vz body \<and> vz body \<le> 1
   \<and> 0 \<le> mass body \<and> mass body \<le> 1"





text \<open>Three bodies all of whose coordinates are negative.\<close>

definition negative_bodies :: "Body list" where
  "negative_bodies =
     [resting (- 1) (- 2) (- 3) 1, resting (- 4) (- 5) (- 6) 1, resting (- 7) (- 8) (- 9) 1]"



text \<open>Four bodies for the examples: on a 3 by 4 grid the second and the third share a
  cell, and so do the first and the fourth.\<close>

definition example_bodies :: "Body list" where
  "example_bodies = [resting 0 0 0 1, resting 1 1 1 1, resting 1 1 0 1, resting 0 0 1 1]"

section \<open>The loops visit every pair once\<close>

declare inner_loop.simps [simp del]
declare outer_loop.simps [simp del]

lemma unat_increment: "(i :: uint) < n \<Longrightarrow> unat (i + 1) = Suc (unat i)"
proof -
  assume "i < n"
  then have "unat i < unat n"
    by (simp add: word_less_nat_alt)
  moreover have "unat n < 2 ^ 32"
    using unsigned_less [of n] by simp
  ultimately have "Suc (unat i) < 2 ^ 32"
    by simp
  then show ?thesis
    by (simp add: unat_word_ariths)
qed

lemma apply_pairs_append:
  "apply_pairs g old (ps @ qs) bodies =
     (case apply_pairs g old ps bodies of Inl e \<Rightarrow> Inl e | Inr bodies' \<Rightarrow> apply_pairs g old qs bodies')"
  by (induction ps arbitrary: bodies) (auto split: sum.splits)

lemma inner_loop_pairs:
  "inner_loop g old n i1 i2 bodies =
     apply_pairs g old (map (Pair (unat i1)) [unat i2..<unat n]) bodies"
proof (induction g old n i1 i2 bodies rule: inner_loop.induct)
  case (1 g old n i1 i2 bodies)
  show ?case
  proof (cases "i2 < n")
    case True
    then have lt: "unat i2 < unat n"
      by (simp add: word_less_nat_alt)
    have up: "[unat i2..<unat n] = unat i2 # [unat (i2 + 1)..<unat n]"
      using lt unat_increment [OF True] by (simp add: upt_conv_Cons)
    show ?thesis
      using True 1 by (subst inner_loop.simps) (simp add: up split: sum.splits)
  next
    case False
    then have "unat n \<le> unat i2"
      by (simp add: word_less_nat_alt)
    then show ?thesis
      using False by (subst inner_loop.simps) simp
  qed
qed

lemma outer_loop_zero: "outer_loop g old 0 i1 bodies = Inr bodies"
proof (induction g old "0 :: uint" i1 bodies rule: outer_loop.induct)
  case (1 g old i1 bodies)
  have in0: "inner_loop g old 0 i1 (i1 + 1) bodies = Inr bodies"
    by (subst inner_loop.simps) simp
  show ?case
    using 1 in0 by (subst outer_loop.simps) simp
qed

lemma outer_loop_pairs:
  "n \<noteq> 0 \<Longrightarrow> outer_loop g old n i1 bodies =
     apply_pairs g old
       (concat (map (\<lambda>i. map (Pair i) [Suc i..<unat n]) [unat i1..<unat n - 1])) bodies"
proof (induction g old n i1 bodies rule: outer_loop.induct)
  case (1 g old n i1 bodies)
  have n1: "unat (n - 1) = unat n - 1"
    using \<open>n \<noteq> 0\<close> by (simp add: unat_minus_one)
  show ?case
  proof (cases "i1 < n - 1")
    case True
    then have lt: "unat i1 < unat n - 1"
      by (simp add: word_less_nat_alt n1)
    have inc: "unat (i1 + 1) = Suc (unat i1)"
      by (rule unat_increment [OF True])
    have up: "[unat i1..<unat n - 1] = unat i1 # [Suc (unat i1)..<unat n - 1]"
      using lt by (rule upt_conv_Cons)
    have step: "outer_loop g old n i1 bodies =
        (case inner_loop g old n i1 (i1 + 1) bodies of
           Inl e \<Rightarrow> Inl e
         | Inr bodies' \<Rightarrow> outer_loop g old n (i1 + 1) bodies')"
      using True by (subst outer_loop.simps) simp
    show ?thesis
      unfolding step up
      using 1 True
      by (auto simp: inc inner_loop_pairs apply_pairs_append split: sum.splits)
  next
    case False
    then have "unat n - 1 \<le> unat i1"
      by (simp add: word_less_nat_alt n1)
    then show ?thesis
      using False by (subst outer_loop.simps) simp
  qed
qed

lemma update_velocities_pairs:
  "update_velocities g bodies =
     apply_pairs g bodies (all_pairs (unat (of_nat (length bodies) :: uint))) bodies"
proof (cases "(of_nat (length bodies) :: uint) = 0")
  case True
  then show ?thesis
    by (simp add: update_velocities_def outer_loop_zero all_pairs_def)
next
  case False
  then show ?thesis
    by (simp add: update_velocities_def outer_loop_pairs all_pairs_def)
qed


lemma magnitude_eq_0_iff: "magnitude a b c = 0 \<longleftrightarrow> a = 0 \<and> b = 0 \<and> c = 0"
proof -
  have "a * a + b * b + c * c = 0 \<longleftrightarrow> a * a + b * b = 0 \<and> c * c = 0"
    by (rule add_nonneg_eq_0_iff) simp_all
  then have "a * a + b * b + c * c = 0 \<longleftrightarrow> a = 0 \<and> b = 0 \<and> c = 0"
    by (simp add: sum_squares_eq_zero_iff)
  then show ?thesis
    by (simp add: magnitude_def)
qed

lemma magnitude_nonneg: "0 \<le> magnitude a b c"
  by (simp add: magnitude_def)

lemma magnitude_swap: "magnitude (a2 - a1) (b2 - b1) (c2 - c1) = magnitude (a1 - a2) (b1 - b2) (c1 - c2)"
proof -
  have "(a2 - a1) * (a2 - a1) = (a1 - a2) * (a1 - a2)"
       "(b2 - b1) * (b2 - b1) = (b1 - b2) * (b1 - b2)"
       "(c2 - c1) * (c2 - c1) = (c1 - c2) * (c1 - c2)"
    by (simp_all add: algebra_simps)
  then show ?thesis
    by (simp add: magnitude_def)
qed

lemma magnitude_scaled: "0 < d \<Longrightarrow> magnitude (a / d) (b / d) (c / d) = magnitude a b c / d"
proof -
  assume d: "0 < d"
  have "a / d * (a / d) + b / d * (b / d) + c / d * (c / d) = (a * a + b * b + c * c) / (d * d)"
    by (simp add: add_divide_distrib)
  then show ?thesis
    using d by (simp add: magnitude_def real_sqrt_divide)
qed

lemma distance_eq_0_iff:
  "distance a1 b1 c1 a2 b2 c2 = 0 \<longleftrightarrow> a1 = a2 \<and> b1 = b2 \<and> c1 = c2"
  by (simp add: distance_def magnitude_eq_0_iff)

lemma pair_update_eq:
  assumes "i1 \<noteq> i2"
    and "distance (x (old ! i1)) (y (old ! i1)) (z (old ! i1))
                  (x (old ! i2)) (y (old ! i2)) (z (old ! i2)) = d"
    and "d \<noteq> 0"
    and "f = g * (mass (old ! i1) * mass (old ! i2) / d)"
  shows "pair_update g old bodies i1 i2 =
     (if mass (bodies ! i1) = 0 \<or> mass (bodies ! i2) = 0 then Inl DivisionByZero
      else Inr (bodies
        [i1 := (bodies ! i1)
           \<lparr>vx := vx (bodies ! i1) + (x (old ! i2) - x (old ! i1)) / d * f / mass (bodies ! i1),
            vy := vy (bodies ! i1) + (y (old ! i2) - y (old ! i1)) / d * f / mass (bodies ! i1),
            vz := vz (bodies ! i1) + (z (old ! i2) - z (old ! i1)) / d * f / mass (bodies ! i1)\<rparr>,
         i2 := (bodies ! i2)
           \<lparr>vx := vx (bodies ! i2) + - ((x (old ! i2) - x (old ! i1)) / d * f) / mass (bodies ! i2),
            vy := vy (bodies ! i2) + - ((y (old ! i2) - y (old ! i1)) / d * f) / mass (bodies ! i2),
            vz := vz (bodies ! i2) + - ((z (old ! i2) - z (old ! i1)) / d * f) / mass (bodies ! i2)\<rparr>]))"
proof -
  have m1: "magnitude (x (old ! i2) - x (old ! i1)) (y (old ! i2) - y (old ! i1))
              (z (old ! i2) - z (old ! i1)) = d"
    using assms(2) by (simp add: distance_def magnitude_swap)
  show ?thesis
    using assms(1,3)
    by (simp add: pair_update_def newton_law_of_universal_gravitation_def assms(2) m1 assms(4)
        Let_def)
qed

lemma sum_list_map_update:
  fixes f :: "'a \<Rightarrow> real"
  shows "k < length xs \<Longrightarrow> sum_list (map f (xs[k := v])) = sum_list (map f xs) - f (xs ! k) + f v"
  by (induction xs arbitrary: k) (auto split: nat.splits)

lemma in_all_pairs: "(i, j) \<in> set (all_pairs n) \<longleftrightarrow> i < j \<and> j < n"
proof
  assume "(i, j) \<in> set (all_pairs n)"
  then obtain k where "k < n - 1" "(i, j) \<in> Pair k ` {Suc k..<n}"
    by (auto simp: all_pairs_def)
  then show "i < j \<and> j < n"
    by auto
next
  assume a: "i < j \<and> j < n"
  then have "i \<in> {0..<n - 1}" and "(i, j) \<in> Pair i ` {Suc i..<n}"
    by auto
  then have "(i, j) \<in> (\<Union>k\<in>{0..<n - 1}. Pair k ` {Suc k..<n})"
    by (rule UN_I)
  then show "(i, j) \<in> set (all_pairs n)"
    unfolding all_pairs_def set_concat set_map set_upt image_image by simp
qed

lemma hd_row: "Suc i < n \<Longrightarrow> hd (map (Pair i) [Suc i..<n]) = (i, Suc i)"
  by (simp add: hd_map)

lemma row_inj: "inj_on (\<lambda>i. map (Pair i) [Suc i..<n]) (set [0..<n - 1])"
proof (rule inj_onI)
  fix i j
  assume "i \<in> set [0..<n - 1]" "j \<in> set [0..<n - 1]"
    and eq: "map (Pair i) [Suc i..<n] = map (Pair j) [Suc j..<n]"
  then have lt: "Suc i < n" "Suc j < n"
    by simp_all
  have "(i, Suc i) = (j, Suc j)"
    using arg_cong [OF eq, of hd] unfolding hd_row [OF lt(1)] hd_row [OF lt(2)] .
  then show "i = j"
    by simp
qed

lemma row_disjoint: "i \<noteq> j \<Longrightarrow> set (map (Pair i) [Suc i..<n]) \<inter> set (map (Pair j) [Suc j..<(n::nat)]) = {}"
  by auto

lemma row_distinct: "distinct (map (Pair i) [Suc i..<n])"
  by (simp add: distinct_map inj_on_def)

lemma pair_update_preserves:
  assumes "i1 \<noteq> i2" and "i1 < length bodies" and "i2 < length bodies"
    and "position (old ! i1) \<noteq> position (old ! i2)"
    and "mass (bodies ! i1) \<noteq> 0" and "mass (bodies ! i2) \<noteq> 0"
  shows "\<exists>bodies'. pair_update g old bodies i1 i2 = Inr bodies'
           \<and> length bodies' = length bodies
           \<and> map mass bodies' = map mass bodies
           \<and> momentum bodies' = momentum bodies"
proof -
  define d where "d = distance (x (old ! i1)) (y (old ! i1)) (z (old ! i1))
                               (x (old ! i2)) (y (old ! i2)) (z (old ! i2))"
  define f where "f = g * (mass (old ! i1) * mass (old ! i2) / d)"
  have d0: "d \<noteq> 0"
    using assms(4) by (auto simp: d_def distance_eq_0_iff position_def)
  note eq = pair_update_eq [OF assms(1) d_def [symmetric] d0 f_def, of bodies]
  have upd: "\<And>h u w. sum_list (map h (bodies[i1 := u, i2 := w])) =
      sum_list (map h bodies) - h (bodies ! i1) + h u - h (bodies ! i2) + (h w :: real)"
    using assms(1,2,3) by (simp add: sum_list_map_update)
  have masses: "\<And>u w. mass u = mass (bodies ! i1) \<Longrightarrow> mass w = mass (bodies ! i2) \<Longrightarrow>
      map mass (bodies[i1 := u, i2 := w]) = map mass bodies"
    using assms(2,3) by (auto intro!: nth_equalityI simp: nth_list_update)
  define a1 where "a1 = (x (old ! i2) - x (old ! i1)) / d * f"
  define a2 where "a2 = (y (old ! i2) - y (old ! i1)) / d * f"
  define a3 where "a3 = (z (old ! i2) - z (old ! i1)) / d * f"
  define u where "u = (bodies ! i1)
           \<lparr>vx := vx (bodies ! i1) + a1 / mass (bodies ! i1),
            vy := vy (bodies ! i1) + a2 / mass (bodies ! i1),
            vz := vz (bodies ! i1) + a3 / mass (bodies ! i1)\<rparr>"
  define w where "w = (bodies ! i2)
           \<lparr>vx := vx (bodies ! i2) + - a1 / mass (bodies ! i2),
            vy := vy (bodies ! i2) + - a2 / mass (bodies ! i2),
            vz := vz (bodies ! i2) + - a3 / mass (bodies ! i2)\<rparr>"
  have res: "pair_update g old bodies i1 i2 = Inr (bodies[i1 := u, i2 := w])"
    unfolding eq u_def w_def a1_def a2_def a3_def using assms(5,6) by simp
  have mu: "mass u = mass (bodies ! i1)" and mw: "mass w = mass (bodies ! i2)"
    by (simp_all add: u_def w_def)
  have px: "mass u * vx u + mass w * vx w
              = mass (bodies ! i1) * vx (bodies ! i1) + mass (bodies ! i2) * vx (bodies ! i2)"
    using assms(5,6) by (simp add: u_def w_def algebra_simps)
  have py: "mass u * vy u + mass w * vy w
              = mass (bodies ! i1) * vy (bodies ! i1) + mass (bodies ! i2) * vy (bodies ! i2)"
    using assms(5,6) by (simp add: u_def w_def algebra_simps)
  have pz: "mass u * vz u + mass w * vz w
              = mass (bodies ! i1) * vz (bodies ! i1) + mass (bodies ! i2) * vz (bodies ! i2)"
    using assms(5,6) by (simp add: u_def w_def algebra_simps)
  have "momentum (bodies[i1 := u, i2 := w]) = momentum bodies"
    unfolding momentum_def upd using px py pz by simp
  with res masses [OF mu mw] show ?thesis
    by simp
qed

lemma apply_pairs_preserves:
  assumes "\<forall>(i1, i2) \<in> set ps. i1 \<noteq> i2 \<and> i1 < length bodies \<and> i2 < length bodies
              \<and> position (old ! i1) \<noteq> position (old ! i2)"
    and "0 \<notin> set (map mass bodies)"
  shows "\<exists>bodies'. apply_pairs g old ps bodies = Inr bodies'
           \<and> length bodies' = length bodies
           \<and> map mass bodies' = map mass bodies
           \<and> momentum bodies' = momentum bodies"
  using assms
proof (induction ps arbitrary: bodies)
  case Nil
  then show ?case by simp
next
  case (Cons p ps)
  obtain i1 i2 where p: "p = (i1, i2)"
    by (cases p)
  from Cons.prems(1) have here: "i1 \<noteq> i2" "i1 < length bodies" "i2 < length bodies"
      "position (old ! i1) \<noteq> position (old ! i2)"
    by (auto simp: p)
  have "mass (bodies ! i1) \<in> set (map mass bodies)" "mass (bodies ! i2) \<in> set (map mass bodies)"
    using here(2,3) by simp_all
  with Cons.prems(2) have "mass (bodies ! i1) \<noteq> 0" "mass (bodies ! i2) \<noteq> 0"
    by metis+
  with pair_update_preserves [OF here, of g] obtain bodies1
    where one: "pair_update g old bodies i1 i2 = Inr bodies1"
      "length bodies1 = length bodies" "map mass bodies1 = map mass bodies"
      "momentum bodies1 = momentum bodies"
    by blast
  have "\<forall>(i1, i2) \<in> set ps. i1 \<noteq> i2 \<and> i1 < length bodies1 \<and> i2 < length bodies1
              \<and> position (old ! i1) \<noteq> position (old ! i2)"
    using Cons.prems(1) one(2) by auto
  moreover have "0 \<notin> set (map mass bodies1)"
    using Cons.prems(2) one(3) by simp
  ultimately obtain bodies' where "apply_pairs g old ps bodies1 = Inr bodies'"
      "length bodies' = length bodies1" "map mass bodies' = map mass bodies1"
      "momentum bodies' = momentum bodies1"
    using Cons.IH by blast
  with one show ?case
    by (simp add: p)
qed

lemma distinct_all_pairs: "distinct (all_pairs n)"
  unfolding all_pairs_def
proof (rule distinct_concat)
  show "distinct (map (\<lambda>i. map (Pair i) [Suc i..<n]) [0..<n - 1])"
    using row_inj [of n] by (simp add: distinct_map)
next
  fix ys
  assume "ys \<in> set (map (\<lambda>i. map (Pair i) [Suc i..<n]) [0..<n - 1])"
  then obtain i where "ys = map (Pair i) [Suc i..<n]"
    by auto
  then show "distinct ys"
    by (simp only: row_distinct)
next
  fix ys zs
  assume "ys \<in> set (map (\<lambda>i. map (Pair i) [Suc i..<n]) [0..<n - 1])"
    and "zs \<in> set (map (\<lambda>i. map (Pair i) [Suc i..<n]) [0..<n - 1])"
    and "ys \<noteq> zs"
  then obtain i j where "ys = map (Pair i) [Suc i..<n]" "zs = map (Pair j) [Suc j..<n]" "i \<noteq> j"
    by auto
  then show "set ys \<inter> set zs = {}"
    using row_disjoint [of i j n] by simp
qed

lemma uint_size_le: "unat (of_nat k :: uint) \<le> k"
  by (simp add: unat_of_nat)

lemma uint_size_eq: "k < 2 ^ 32 \<Longrightarrow> unat (of_nat k :: uint) = k"
  by (simp add: unat_of_nat)

text \<open>
  The velocity update runs the loop body over \<open>all_pairs\<close>, which lists every pair
  \<open>i1 < i2\<close> below the size once (\<open>in_all_pairs\<close>, \<open>distinct_all_pairs\<close>).
\<close>

lemma update_velocities_all_pairs:
  "length bodies < 2 ^ 32 \<Longrightarrow>
   update_velocities g bodies = apply_pairs g bodies (all_pairs (length bodies)) bodies"
  by (simp add: update_velocities_pairs uint_size_eq)

section \<open>Momentum\<close>

text \<open>
  C1. When every mass is strictly positive and no two bodies share a position, the
  velocity update (every pair \<open>i1 < i2\<close> once, positions read from the snapshot)
  returns, and the total momentum, the sum of mass times velocity in each component, is
  the same after it as before, in exact real arithmetic.
\<close>

theorem update_velocities_momentum:
  assumes "\<forall>body \<in> set bodies. 0 < mass body"
    and "\<forall>i < length bodies. \<forall>j < length bodies.
           i \<noteq> j \<longrightarrow> position (bodies ! i) \<noteq> position (bodies ! j)"
  shows "\<exists>bodies'. update_velocities g bodies = Inr bodies'
           \<and> momentum bodies' = momentum bodies"
proof -
  have "\<forall>(i1, i2) \<in> set (all_pairs (unat (of_nat (length bodies) :: uint))).
          i1 \<noteq> i2 \<and> i1 < length bodies \<and> i2 < length bodies
          \<and> position (bodies ! i1) \<noteq> position (bodies ! i2)"
    using assms(2) uint_size_le [of "length bodies"] by (auto simp: in_all_pairs)
  moreover have "0 \<notin> set (map mass bodies)"
    using assms(1) by auto
  ultimately have "\<exists>bodies'. apply_pairs g bodies
          (all_pairs (unat (of_nat (length bodies) :: uint))) bodies = Inr bodies'
           \<and> length bodies' = length bodies
           \<and> map mass bodies' = map mass bodies
           \<and> momentum bodies' = momentum bodies"
    by (rule apply_pairs_preserves)
  then show ?thesis
    unfolding update_velocities_pairs by blast
qed

theorem update_velocities_momentum_witness:
  "0 < mass (resting 0 0 0 1) \<and> 0 < mass (resting 3 4 0 2)
   \<and> position (resting 0 0 0 1) \<noteq> position (resting 3 4 0 2)
   \<and> (\<exists>bodies'. update_velocities 1 [resting 0 0 0 1, resting 3 4 0 2] = Inr bodies'
        \<and> momentum bodies' = momentum [resting 0 0 0 1, resting 3 4 0 2])"
proof -
  have h1: "\<forall>body \<in> set [resting 0 0 0 1, resting 3 4 0 2]. 0 < mass body"
    by (simp add: resting_def)
  have h2: "\<forall>i < length [resting 0 0 0 1, resting 3 4 0 2].
        \<forall>j < length [resting 0 0 0 1, resting 3 4 0 2].
          i \<noteq> j \<longrightarrow> position ([resting 0 0 0 1, resting 3 4 0 2] ! i)
                      \<noteq> position ([resting 0 0 0 1, resting 3 4 0 2] ! j)"
    by (simp add: All_less_Suc resting_def position_def)
  have h3: "0 < mass (resting 0 0 0 1) \<and> 0 < mass (resting 3 4 0 2)
      \<and> position (resting 0 0 0 1) \<noteq> position (resting 3 4 0 2)"
    by (simp add: resting_def position_def)
  from update_velocities_momentum [OF h1 h2, of 1] h3 show ?thesis
    by blast
qed

section \<open>The force between two bodies\<close>

lemma magnitude_unit:
  assumes "magnitude a b c = d" and "0 < d"
  shows "magnitude (a / d) (b / d) (c / d) = 1"
  using assms by (simp add: magnitude_scaled)

text \<open>
  C5. For two bodies \<open>i1\<close>, \<open>i2\<close> whose snapshot positions are at distance \<open>d > 0\<close>,
  the force is \<open>F = G * mass1 * mass2 / d\<close>, linear in the distance. The vector
  \<open>(ux, uy, uz)\<close> from the first body to the second, divided by \<open>d\<close>, has magnitude
  1, and the loop body adds \<open>u * F\<close> divided by the mass of the first body to the velocity
  of the first, and the negated force \<open>- (u * F)\<close> divided by the mass of the second to
  the velocity of the second. The force is computed from the masses in the snapshot, the
  accelerations from the masses in the live array (in \<open>main\<close> they are the same); where one
  of these is 0 the division by it has no real value.
\<close>

theorem pair_update_formula:
  assumes "i1 < length bodies" and "i2 < length bodies"
    and "length bodies_old = length bodies"
    and "d = distance (x (bodies_old ! i1)) (y (bodies_old ! i1)) (z (bodies_old ! i1))
                      (x (bodies_old ! i2)) (y (bodies_old ! i2)) (z (bodies_old ! i2))"
    and "0 < d"
    and "F = G * mass (bodies_old ! i1) * mass (bodies_old ! i2) / d"
    and "ux = (x (bodies_old ! i2) - x (bodies_old ! i1)) / d"
    and "uy = (y (bodies_old ! i2) - y (bodies_old ! i1)) / d"
    and "uz = (z (bodies_old ! i2) - z (bodies_old ! i1)) / d"
  shows "newton_law_of_universal_gravitation G (mass (bodies_old ! i1)) (mass (bodies_old ! i2)) d
           = Inr F
     \<and> magnitude ux uy uz = 1
     \<and> pair_update G bodies_old bodies i1 i2 =
        (if mass (bodies ! i1) = 0 \<or> mass (bodies ! i2) = 0 then Inl DivisionByZero
         else Inr (bodies
           [i1 := (bodies ! i1)
              \<lparr>vx := vx (bodies ! i1) + ux * F / mass (bodies ! i1),
               vy := vy (bodies ! i1) + uy * F / mass (bodies ! i1),
               vz := vz (bodies ! i1) + uz * F / mass (bodies ! i1)\<rparr>,
            i2 := (bodies ! i2)
              \<lparr>vx := vx (bodies ! i2) + - (ux * F) / mass (bodies ! i2),
               vy := vy (bodies ! i2) + - (uy * F) / mass (bodies ! i2),
               vz := vz (bodies ! i2) + - (uz * F) / mass (bodies ! i2)\<rparr>]))"
proof -
  have ne: "i1 \<noteq> i2"
    using assms(4,5) by (auto simp: distance_def magnitude_def)
  have d0: "d \<noteq> 0"
    using assms(5) by simp
  have f: "F = G * (mass (bodies_old ! i1) * mass (bodies_old ! i2) / d)"
    by (simp add: assms(6))
  have m1: "magnitude (x (bodies_old ! i2) - x (bodies_old ! i1))
              (y (bodies_old ! i2) - y (bodies_old ! i1))
              (z (bodies_old ! i2) - z (bodies_old ! i1)) = d"
    by (simp add: assms(4) distance_def magnitude_swap)
  have "newton_law_of_universal_gravitation G (mass (bodies_old ! i1)) (mass (bodies_old ! i2)) d
           = Inr F"
    using d0 by (simp add: newton_law_of_universal_gravitation_def f)
  moreover have "magnitude ux uy uz = 1"
    unfolding assms(7,8,9) using m1 assms(5) by (rule magnitude_unit)
  moreover note pair_update_eq [OF ne assms(4) [symmetric] d0 f, of bodies, folded assms(7,8,9)]
  ultimately show ?thesis
    by simp
qed


lemma sqrt_25: "sqrt 25 = 5"
  by (rule real_sqrt_unique) simp_all

theorem pair_update_formula_witness:
  "distance 0 0 0 3 4 0 = 5 \<and> 0 < (5 :: real)
   \<and> newton_law_of_universal_gravitation 1 1 2 5 = Inr (2 / 5)
   \<and> magnitude (3 / 5) (4 / 5) 0 = 1
   \<and> pair_update 1 [resting 0 0 0 1, resting 3 4 0 2] [resting 0 0 0 1, resting 3 4 0 2] 0 1 =
       Inr [(resting 0 0 0 1)\<lparr>vx := 6 / 25, vy := 8 / 25, vz := 0\<rparr>,
            (resting 3 4 0 2)\<lparr>vx := - (3 / 25), vy := - (4 / 25), vz := 0\<rparr>]"
proof -
  have d: "distance 0 0 0 3 4 0 = 5"
    by (simp add: distance_def magnitude_def sqrt_25)
  have "newton_law_of_universal_gravitation 1
          (mass ([resting 0 0 0 1, resting 3 4 0 2] ! 0))
          (mass ([resting 0 0 0 1, resting 3 4 0 2] ! 1)) 5 = Inr (2 / 5)
     \<and> magnitude (3 / 5) (4 / 5) 0 = 1
     \<and> pair_update 1 [resting 0 0 0 1, resting 3 4 0 2] [resting 0 0 0 1, resting 3 4 0 2] 0 1 =
        (if mass ([resting 0 0 0 1, resting 3 4 0 2] ! 0) = 0
            \<or> mass ([resting 0 0 0 1, resting 3 4 0 2] ! 1) = 0 then Inl DivisionByZero
         else Inr ([resting 0 0 0 1, resting 3 4 0 2]
           [0 := ([resting 0 0 0 1, resting 3 4 0 2] ! 0)
              \<lparr>vx := vx ([resting 0 0 0 1, resting 3 4 0 2] ! 0)
                    + 3 / 5 * (2 / 5) / mass ([resting 0 0 0 1, resting 3 4 0 2] ! 0),
               vy := vy ([resting 0 0 0 1, resting 3 4 0 2] ! 0)
                    + 4 / 5 * (2 / 5) / mass ([resting 0 0 0 1, resting 3 4 0 2] ! 0),
               vz := vz ([resting 0 0 0 1, resting 3 4 0 2] ! 0)
                    + 0 * (2 / 5) / mass ([resting 0 0 0 1, resting 3 4 0 2] ! 0)\<rparr>,
            1 := ([resting 0 0 0 1, resting 3 4 0 2] ! 1)
              \<lparr>vx := vx ([resting 0 0 0 1, resting 3 4 0 2] ! 1)
                    + - (3 / 5 * (2 / 5)) / mass ([resting 0 0 0 1, resting 3 4 0 2] ! 1),
               vy := vy ([resting 0 0 0 1, resting 3 4 0 2] ! 1)
                    + - (4 / 5 * (2 / 5)) / mass ([resting 0 0 0 1, resting 3 4 0 2] ! 1),
               vz := vz ([resting 0 0 0 1, resting 3 4 0 2] ! 1)
                    + - (0 * (2 / 5)) / mass ([resting 0 0 0 1, resting 3 4 0 2] ! 1)\<rparr>]))"
    by (rule pair_update_formula) (simp_all add: resting_def d)
  then show ?thesis
    by (simp add: d resting_def)
qed

lemma all_pairs_2: "all_pairs (Suc (Suc 0)) = [(0, Suc 0)]"
  by (simp add: all_pairs_def)

text \<open>
  C6. Two bodies of mass 1 at rest on the x-axis, 10 apart, with gravitational constant 1:
  one velocity update changes the two velocities by opposite vectors along the x-axis, each
  of magnitude exactly \<open>1 / 10\<close>, the first body moving toward the second.
\<close>

theorem two_body_symmetry:
  assumes "\<bar>b - a\<bar> = 10"
  shows "update_velocities 1 [resting a 0 0 1, resting b 0 0 1] =
           Inr [(resting a 0 0 1)\<lparr>vx := (b - a) / 100\<rparr>,
                (resting b 0 0 1)\<lparr>vx := - ((b - a) / 100)\<rparr>]
         \<and> \<bar>(b - a) / 100\<bar> = 1 / 10"
proof -
  have d: "distance (x ([resting a 0 0 1, resting b 0 0 1] ! 0))
                    (y ([resting a 0 0 1, resting b 0 0 1] ! 0))
                    (z ([resting a 0 0 1, resting b 0 0 1] ! 0))
                    (x ([resting a 0 0 1, resting b 0 0 1] ! 1))
                    (y ([resting a 0 0 1, resting b 0 0 1] ! 1))
                    (z ([resting a 0 0 1, resting b 0 0 1] ! 1)) = 10"
    using assms by (simp add: resting_def distance_def magnitude_def abs_minus_commute)
  have f: "1 / 10 = 1 * (mass ([resting a 0 0 1, resting b 0 0 1] ! 0)
                       * mass ([resting a 0 0 1, resting b 0 0 1] ! 1) / 10)"
    by (simp add: resting_def)
  have "update_velocities 1 [resting a 0 0 1, resting b 0 0 1] =
          pair_update 1 [resting a 0 0 1, resting b 0 0 1] [resting a 0 0 1, resting b 0 0 1] 0 1"
    by (simp add: update_velocities_all_pairs all_pairs_2 split: sum.splits)
  also have "\<dots> = Inr [(resting a 0 0 1)\<lparr>vx := (b - a) / 100\<rparr>,
                (resting b 0 0 1)\<lparr>vx := - ((b - a) / 100)\<rparr>]"
  proof -
    have ne: "(0 :: nat) \<noteq> 1" and d0: "(10 :: real) \<noteq> 0"
      by simp_all
    show ?thesis
      unfolding pair_update_eq [OF ne d d0 f] by (simp add: resting_def)
  qed
  finally show ?thesis
    using assms by simp
qed

theorem two_body_symmetry_witness:
  "\<bar>10 - 0\<bar> = (10 :: real)
   \<and> update_velocities 1 [resting 0 0 0 1, resting 10 0 0 1] =
           Inr [(resting 0 0 0 1)\<lparr>vx := 1 / 10\<rparr>, (resting 10 0 0 1)\<lparr>vx := - (1 / 10)\<rparr>]"
  using two_body_symmetry [of 10 0] by simp

section \<open>Coincident bodies\<close>

lemma pair_update_fault: "pair_update g old bodies i1 i2 = Inl e \<Longrightarrow> e = DivisionByZero"
  by (auto simp: pair_update_def newton_law_of_universal_gravitation_def Let_def
      split: if_splits)

lemma pair_update_coincident:
  "position (old ! i1) = position (old ! i2) \<Longrightarrow> pair_update g old bodies i1 i2 = Inl DivisionByZero"
  by (simp add: pair_update_def newton_law_of_universal_gravitation_def position_def
      distance_def magnitude_def)

lemma apply_pairs_coincident:
  "(i1, i2) \<in> set ps \<Longrightarrow> position (old ! i1) = position (old ! i2) \<Longrightarrow>
   apply_pairs g old ps bodies = Inl DivisionByZero"
proof (induction ps arbitrary: bodies)
  case Nil
  then show ?case by simp
next
  case (Cons p ps)
  obtain j1 j2 where p: "p = (j1, j2)"
    by (cases p)
  show ?case
  proof (cases "pair_update g old bodies j1 j2")
    case (Inl e)
    then show ?thesis
      using pair_update_fault [OF Inl] by (simp add: p)
  next
    case (Inr bodies')
    with Cons.prems pair_update_coincident [of old i1 i2 g bodies] have "(i1, i2) \<in> set ps"
      by (auto simp: p)
    then show ?thesis
      using Cons.IH Cons.prems(2) Inr by (simp add: p)
  qed
qed

text \<open>
  C8. When two bodies share their snapshot position, the distance computed for the pair
  is 0 and so is \<open>magnitude1\<close>: the division by the distance in the force law and the
  divisions by \<open>magnitude1\<close> in the normalisation divide by zero. Nothing guards them: the
  loop body reaches a division by zero whatever the live array holds, and so does the
  velocity update.
\<close>

theorem coincident_bodies_divide_by_zero:
  assumes "i1 < i2" and "i2 < length bodies" and "length bodies < 2 ^ 32"
    and "position (bodies ! i1) = position (bodies ! i2)"
  shows "distance (x (bodies ! i1)) (y (bodies ! i1)) (z (bodies ! i1))
                  (x (bodies ! i2)) (y (bodies ! i2)) (z (bodies ! i2)) = 0
     \<and> magnitude (x (bodies ! i2) - x (bodies ! i1)) (y (bodies ! i2) - y (bodies ! i1))
                 (z (bodies ! i2) - z (bodies ! i1)) = 0
     \<and> (\<forall>live. pair_update g bodies live i1 i2 = Inl DivisionByZero)
     \<and> update_velocities g bodies = Inl DivisionByZero"
proof -
  have "(i1, i2) \<in> set (all_pairs (length bodies))"
    using assms(1,2) by (simp add: in_all_pairs)
  then have "update_velocities g bodies = Inl DivisionByZero"
    unfolding update_velocities_all_pairs [OF assms(3)]
    using assms(4) by (rule apply_pairs_coincident)
  then show ?thesis
    using assms(4) pair_update_coincident [OF assms(4)]
    by (simp add: position_def distance_def magnitude_def)
qed

theorem coincident_bodies_divide_by_zero_witness:
  "position ([resting 1 2 3 1, resting 1 2 3 1] ! 0) = position ([resting 1 2 3 1, resting 1 2 3 1] ! 1)
   \<and> distance 1 2 3 1 2 3 = 0
   \<and> update_velocities 1 [resting 1 2 3 1, resting 1 2 3 1] = Inl DivisionByZero"
  using coincident_bodies_divide_by_zero [of 0 1 "[resting 1 2 3 1, resting 1 2 3 1]" 1]
  by (simp add: resting_def position_def)

section \<open>Recentering\<close>

lemma foldl_add_sum_list:
  fixes f :: "'a \<Rightarrow> real"
  shows "foldl (\<lambda>s b. s + f b) a bs = a + sum_list (map f bs)"
  by (induction bs arbitrary: a) simp_all

lemma sum_list_shifted:
  fixes f :: "'a \<Rightarrow> real"
  shows "sum_list (map (\<lambda>b. f b - c) bs) = sum_list (map f bs) - real (length bs) * c"
  by (induction bs) (simp_all add: algebra_simps)

lemma mean_shifted:
  fixes f :: "'a \<Rightarrow> real"
  assumes "bs \<noteq> []"
  shows "sum_list (map (\<lambda>b. f b - sum_list (map f bs) / real (length bs)) bs) / real (length bs) = 0"
  using assms by (simp add: sum_list_shifted)

text \<open>
  C4. For a non-empty array of \<open>number_of_bodies\<close> bodies, the recentering step returns;
  afterwards the arithmetic mean of the positions is the origin, exactly. Every position has
  moved by the centroid of the positions before the step, so the difference of the
  positions of any two bodies is what it was; velocities and masses are untouched.
\<close>

theorem center_bodies_centered:
  assumes "bodies \<noteq> []" and "length bodies = unat number_of_bodies"
  shows "\<exists>bodies'. center_bodies number_of_bodies bodies = Inr bodies'
     \<and> length bodies' = length bodies
     \<and> centroid bodies' = (0, 0, 0)
     \<and> (\<forall>i < length bodies.
           x (bodies' ! i) = x (bodies ! i) - fst (centroid bodies)
         \<and> y (bodies' ! i) = y (bodies ! i) - fst (snd (centroid bodies))
         \<and> z (bodies' ! i) = z (bodies ! i) - snd (snd (centroid bodies))
         \<and> vx (bodies' ! i) = vx (bodies ! i) \<and> vy (bodies' ! i) = vy (bodies ! i)
         \<and> vz (bodies' ! i) = vz (bodies ! i) \<and> mass (bodies' ! i) = mass (bodies ! i))
     \<and> (\<forall>i < length bodies. \<forall>j < length bodies.
           x (bodies' ! i) - x (bodies' ! j) = x (bodies ! i) - x (bodies ! j)
         \<and> y (bodies' ! i) - y (bodies' ! j) = y (bodies ! i) - y (bodies ! j)
         \<and> z (bodies' ! i) - z (bodies' ! j) = z (bodies ! i) - z (bodies ! j))"
proof -
  define cx where "cx = sum_list (map x bodies) / real (length bodies)"
  define cy where "cy = sum_list (map y bodies) / real (length bodies)"
  define cz where "cz = sum_list (map z bodies) / real (length bodies)"
  define bodies' where
    "bodies' = map (\<lambda>body. body\<lparr>x := x body - cx, y := y body - cy, z := z body - cz\<rparr>) bodies"
  have n0: "number_of_bodies \<noteq> 0"
    using assms by (auto simp: unat_eq_0)
  have res: "center_bodies number_of_bodies bodies = Inr bodies'"
    using n0 assms(2)
    by (simp add: center_bodies_def foldl_add_sum_list bodies'_def cx_def cy_def cz_def)
  have len: "length bodies' = length bodies"
    by (simp add: bodies'_def)
  have mx: "map x bodies' = map (\<lambda>b. x b - cx) bodies"
    and my: "map y bodies' = map (\<lambda>b. y b - cy) bodies"
    and mz: "map z bodies' = map (\<lambda>b. z b - cz) bodies"
    by (simp_all add: bodies'_def)
  have cen: "centroid bodies' = (0, 0, 0)"
    unfolding centroid_def mx my mz len cx_def cy_def cz_def mean_shifted [OF assms(1)] ..
  have pos: "x (bodies' ! i) = x (bodies ! i) - cx \<and> y (bodies' ! i) = y (bodies ! i) - cy
      \<and> z (bodies' ! i) = z (bodies ! i) - cz
      \<and> vx (bodies' ! i) = vx (bodies ! i) \<and> vy (bodies' ! i) = vy (bodies ! i)
      \<and> vz (bodies' ! i) = vz (bodies ! i) \<and> mass (bodies' ! i) = mass (bodies ! i)"
    if "i < length bodies" for i
    using that by (simp add: bodies'_def)
  have c: "centroid bodies = (cx, cy, cz)"
    by (simp add: centroid_def cx_def cy_def cz_def)
  show ?thesis
    using res len cen pos by (intro exI [of _ bodies']) (simp add: c)
qed

theorem center_bodies_centered_witness:
  "center_bodies 2 [resting 1 2 3 1, resting 3 4 5 1] =
     Inr [resting (- 1) (- 1) (- 1) 1, resting 1 1 1 1]
   \<and> centroid [resting (- 1) (- 1) (- 1) 1, resting 1 1 1 1] = (0, 0, 0)"
  using center_bodies_centered [of "[resting 1 2 3 1, resting 3 4 5 1]" 2]
  by (simp add: center_bodies_def resting_def centroid_def)

section \<open>Initialisation bounds\<close>

lemma unsigned_real_nonneg: "0 \<le> (unsigned w :: real)"
  using of_nat_0_le_iff [where 'a = real, of "unat w"] by simp

lemma rand01double_bounds:
  assumes "0 < RAND_MAX" and "\<forall>s. 0 \<le> fst (rand s) \<and> fst (rand s) \<le> RAND_MAX"
  shows "0 \<le> fst (rand01double RAND_MAX rand s) \<and> fst (rand01double RAND_MAX rand s) \<le> 1"
proof -
  have "0 \<le> fst (rand s)" "fst (rand s) \<le> RAND_MAX"
    using assms(2) by simp_all
  then show ?thesis
    using assms(1) by (simp add: rand01double_def case_prod_beta)
qed

lemma randndouble_bounds:
  assumes "0 < RAND_MAX" and "\<forall>s. 0 \<le> fst (rand s) \<and> fst (rand s) \<le> RAND_MAX"
  shows "- real (unat number_of_bodies) \<le> fst (randndouble RAND_MAX rand number_of_bodies s)
       \<and> fst (randndouble RAND_MAX rand number_of_bodies s) \<le> real (unat number_of_bodies)"
proof -
  define r where "r = fst (rand01double RAND_MAX rand s)"
  have r: "0 \<le> r" "r \<le> 1"
    using rand01double_bounds [OF assms, of s] by (simp_all add: r_def)
  have eq: "fst (randndouble RAND_MAX rand number_of_bodies s)
              = (r * 2 - 1) * real (unat number_of_bodies)"
    by (simp add: randndouble_def randn1to1double_def case_prod_beta r_def)
  have "\<bar>r * 2 - 1\<bar> \<le> 1"
    using r by (simp add: abs_le_iff)
  then have "\<bar>(r * 2 - 1) * real (unat number_of_bodies)\<bar> \<le> 1 * real (unat number_of_bodies)"
    unfolding abs_mult by (intro mult_mono) (simp_all add: unsigned_real_nonneg)
  then show ?thesis
    unfolding eq by (simp add: abs_le_iff)
qed

lemma init_body_bounds:
  assumes "0 < RAND_MAX" and "\<forall>s. 0 \<le> fst (rand s) \<and> fst (rand s) \<le> RAND_MAX"
  shows "within_bounds number_of_bodies (fst (init_body RAND_MAX rand number_of_bodies s))"
  unfolding within_bounds_def init_body_def
  using rand01double_bounds [OF assms] randndouble_bounds [OF assms]
  by (simp add: case_prod_beta)

lemma init_loop_bounds:
  assumes "0 < RAND_MAX" and "\<forall>s. 0 \<le> fst (rand s) \<and> fst (rand s) \<le> RAND_MAX"
  shows "length (fst (init_loop RAND_MAX rand number_of_bodies k s)) = k
       \<and> (\<forall>body \<in> set (fst (init_loop RAND_MAX rand number_of_bodies k s)).
             within_bounds number_of_bodies body)"
proof (induction k arbitrary: s)
  case 0
  show ?case by simp
next
  case (Suc k)
  show ?case
    using Suc [of "snd (init_body RAND_MAX rand number_of_bodies s)"]
      init_body_bounds [OF assms, of number_of_bodies s]
    by (simp add: case_prod_beta)
qed

text \<open>
  C3, as the code has it. Let the random source return values from 0 to \<open>RAND_MAX\<close>,
  whatever its state. Then the initialisation produces \<open>number_of_bodies\<close> bodies whose
  position components lie in \<open>[-n, n]\<close> for \<open>n = number_of_bodies\<close>, whose velocity
  components lie in \<open>[0, 1]\<close> and whose masses lie in the closed interval \<open>[0, 1]\<close>.
\<close>

theorem init_bodies_bounds:
  assumes "0 < RAND_MAX" and "\<forall>s. 0 \<le> fst (rand s) \<and> fst (rand s) \<le> RAND_MAX"
  shows "length (fst (init_bodies RAND_MAX rand number_of_bodies s)) = unat number_of_bodies
       \<and> (\<forall>body \<in> set (fst (init_bodies RAND_MAX rand number_of_bodies s)).
             - real (unat number_of_bodies) \<le> x body \<and> x body \<le> real (unat number_of_bodies)
           \<and> - real (unat number_of_bodies) \<le> y body \<and> y body \<le> real (unat number_of_bodies)
           \<and> - real (unat number_of_bodies) \<le> z body \<and> z body \<le> real (unat number_of_bodies)
           \<and> 0 \<le> vx body \<and> vx body \<le> 1
           \<and> 0 \<le> vy body \<and> vy body \<le> 1
           \<and> 0 \<le> vz body \<and> vz body \<le> 1
           \<and> 0 \<le> mass body \<and> mass body \<le> 1)"
  using init_loop_bounds [OF assms, of number_of_bodies "unat number_of_bodies" s]
  unfolding init_bodies_def within_bounds_def by blast

text \<open>
  The mass is \<open>rand() / RAND_MAX\<close>, which is 0 when \<open>rand\<close> returns 0: a source that
  returns 0 gives a body of mass exactly 0, so the masses do not all lie in \<open>(0, 1]\<close>.
\<close>

theorem init_bodies_zero_mass:
  "0 \<le> fst (rand_zero ()) \<and> fst (rand_zero ()) \<le> 32767
   \<and> mass (hd (fst (init_bodies 32767 rand_zero 1 ()))) = 0"
  by (simp add: init_bodies_def init_body_def rand01double_def randndouble_def
      randn1to1double_def rand_zero_def)

theorem init_bodies_bounds_witness:
  "fst (init_bodies 32767 rand_step 1 1) =
     [\<lparr>x = 7919 * 2 / 32767 - 1, y = 15838 * 2 / 32767 - 1, z = 23757 * 2 / 32767 - 1,
       vx = 31676 / 32767, vy = 6827 / 32767, vz = 14746 / 32767, mass = 22665 / 32767\<rparr>]
   \<and> 0 \<le> mass (hd (fst (init_bodies 32767 rand_step 1 1)))
   \<and> mass (hd (fst (init_bodies 32767 rand_step 1 1))) \<le> 1"
proof -
  have h: "\<forall>s. 0 \<le> fst (rand_step s) \<and> fst (rand_step s) \<le> 32767"
  proof
    fix s :: nat
    have "(s * 7919) mod 32768 < 32768"
      by simp
    then show "0 \<le> fst (rand_step s) \<and> fst (rand_step s) \<le> 32767"
      by (simp add: rand_step_def)
  qed
  have v: "fst (init_bodies 32767 rand_step 1 1) =
     [\<lparr>x = 7919 * 2 / 32767 - 1, y = 15838 * 2 / 32767 - 1, z = 23757 * 2 / 32767 - 1,
       vx = 31676 / 32767, vy = 6827 / 32767, vz = 14746 / 32767, mass = 22665 / 32767\<rparr>]"
    by (simp add: init_bodies_def init_body_def rand01double_def randndouble_def
        randn1to1double_def rand_step_def)
  from init_bodies_bounds [of 32767 rand_step 1 1, OF _ h] v show ?thesis
    by simp
qed

section \<open>The bounds of the bodies\<close>




lemma overflow_threshold: "(1 :: real) < 2 ^ 1024 - 2 ^ 970"
proof -
  have split: "(2 :: real) ^ 1024 = 2 ^ 970 * 2 ^ 54"
    unfolding power_add [symmetric] by simp
  have a: "(1 :: real) < 2 ^ 970"
    by (rule one_less_power) simp_all
  have "(2 :: real) ^ 970 * 2 \<le> 2 ^ 970 * 2 ^ 54"
    by (intro mult_left_mono) simp_all
  then have "(2 :: real) ^ 970 + 2 ^ 970 \<le> 2 ^ 1024"
    unfolding split by linarith
  with a show ?thesis
    by linarith
qed

lemma not_overflows_small: "\<bar>r\<bar> \<le> 1 \<Longrightarrow> \<not> overflows r"
  using overflow_threshold unfolding overflows_def by linarith









lemma DBL_MIN_pos: "0 < DBL_MIN"
  by (simp add: DBL_MIN_def)

lemma DBL_MIN_less_1: "DBL_MIN < 1"
proof -
  have "(1 :: real) < 2 ^ 1022"
    by (rule one_less_power) simp_all
  then show ?thesis
    by (simp add: DBL_MIN_def)
qed

lemma DBL_MAX_greater_1: "1 < DBL_MAX"
proof -
  have a: "(1 :: real) \<le> 2 - 1 / 2 ^ 52"
    by (simp add: field_simps)
  have b: "(1 :: real) < 2 ^ 1023"
    by (rule one_less_power) simp_all
  have "1 * 1 < (2 - 1 / 2 ^ 52) * (2 ^ 1023 :: real)"
    using a b by (intro mult_le_less_imp_less) simp_all
  then show ?thesis
    by (simp add: DBL_MAX_def)
qed

lemma Max_insert_max:
  fixes a b :: real
  assumes "finite S"
  shows "Max (insert (max a b) S) = Max (insert a (insert b S))"
  using assms by (cases "S = {}") (simp_all add: max.assoc)

lemma Min_insert_min:
  fixes a b :: real
  assumes "finite S"
  shows "Min (insert (min a b) S) = Min (insert a (insert b S))"
  using assms by (cases "S = {}") (simp_all add: min.assoc)

lemma bounds_loop_highest_x:
  "highest_x (bounds_loop bodies bd) = Max (insert (highest_x bd) (x ` set bodies))"
proof (induction bodies arbitrary: bd)
  case Nil
  show ?case by simp
next
  case (Cons b bodies)
  have "(if highest_x bd < x b then x b else highest_x bd) = max (highest_x bd) (x b)"
    by (simp add: max_def)
  then show ?case
    by (simp add: Cons Max_insert_max)
qed

lemma bounds_loop_lowest_x:
  "lowest_x (bounds_loop bodies bd) = Min (insert (lowest_x bd) (x ` set bodies))"
proof (induction bodies arbitrary: bd)
  case Nil
  show ?case by simp
next
  case (Cons b bodies)
  have "(if x b < lowest_x bd then x b else lowest_x bd) = min (lowest_x bd) (x b)"
    by (simp add: min_def)
  then show ?case
    by (simp add: Cons Min_insert_min)
qed

text \<open>What the loop computes on the x axis (the other two axes are alike).\<close>

lemma get_bounds_x:
  "highest_x (get_bounds bodies) = Max (insert DBL_MIN (x ` set bodies))"
  "lowest_x (get_bounds bodies) = Min (insert DBL_MAX (x ` set bodies))"
  by (simp_all add: get_bounds_def bounds_loop_highest_x bounds_loop_lowest_x)

text \<open>
  C2. The three \<open>lowest\<close> fields are the minima of the coordinates, but the three
  \<open>highest\<close> fields start from the smallest positive double, not from the lowest one:
  for bodies whose coordinates are all negative they stay at that constant instead of the
  maximum of the coordinates.
\<close>

theorem get_bounds_negative_body:
  "highest_x (get_bounds negative_bodies) = DBL_MIN
   \<and> highest_y (get_bounds negative_bodies) = DBL_MIN
   \<and> highest_z (get_bounds negative_bodies) = DBL_MIN
   \<and> 0 < DBL_MIN
   \<and> Max (x ` set negative_bodies) = - 1
   \<and> Max (y ` set negative_bodies) = - 2
   \<and> Max (z ` set negative_bodies) = - 3
   \<and> lowest_x (get_bounds negative_bodies) = - 7
   \<and> lowest_y (get_bounds negative_bodies) = - 8
   \<and> lowest_z (get_bounds negative_bodies) = - 9"
proof -
  have "\<not> DBL_MIN < - 1" "\<not> DBL_MIN < - 2" "\<not> DBL_MIN < - 3"
      "\<not> DBL_MIN < - 4" "\<not> DBL_MIN < - 5" "\<not> DBL_MIN < - 6"
      "\<not> DBL_MIN < - 7" "\<not> DBL_MIN < - 8" "\<not> DBL_MIN < - 9"
      "- 1 < DBL_MAX" "- 2 < DBL_MAX" "- 3 < DBL_MAX"
    using DBL_MIN_pos DBL_MAX_greater_1 by simp_all
  then show ?thesis
    using DBL_MIN_pos by (simp add: get_bounds_def negative_bodies_def resting_def)
qed

section \<open>The writes into the grid\<close>



lemma not_overflows_0_1: "\<not> overflows 0" "\<not> overflows 1"
  by (simp_all add: not_overflows_small)

lemma m0: "map_index 0 0 1 3 = Inr 0"
  by (simp add: map_index_def round_double_def to_uint_def not_overflows_0_1)

lemma m1: "map_index 1 0 1 3 = Inr 3"
  by (simp add: map_index_def round_double_def to_uint_def not_overflows_0_1)

lemma resting_fields:
  "x (resting a b c m) = a" "y (resting a b c m) = b" "z (resting a b c m) = c"
  "vx (resting a b c m) = 0" "vy (resting a b c m) = 0" "vz (resting a b c m) = 0"
  "mass (resting a b c m) = m"
  by (simp_all add: resting_def)

lemma replicate_3_4:
  "replicate 3 l = [l, l, l]" "replicate 4 c = [c, c, c, c]"
  by (simp_all add: eval_nat_numeral)

lemma blank_3_4:
  "replicate (unat (3 :: uint)) (replicate (unat (4 :: uint)) CHR '' '') = [''    '', ''    '', ''    '']"
  by (simp add: replicate_3_4)

lemma z_size_minus_1: "z_size - 1 = 15"
  by (simp add: z_size_def z_characters_def)

lemma m15: "map_index 1 0 1 15 = Inr 15" and m2: "map_index 1 0 1 2 = Inr 2"
  and m00: "map_index 0 0 1 k = Inr 0"
  by (simp_all add: map_index_def round_double_def to_uint_def not_overflows_0_1)








section \<open>Bodies that share a cell\<close>

lemma length_row_update:
  "r < length lines \<Longrightarrow> length (lines[i := (lines ! i)[c := ch]] ! r) = length (lines ! r)"
  by (cases "r = i") simp_all

lemma plot_bodies_shape:
  "plot_bodies height width bd bodies lines = Inr lines' \<Longrightarrow>
   length lines' = length lines \<and> (\<forall>r < length lines. length (lines' ! r) = length (lines ! r))"
proof (induction bodies arbitrary: lines)
  case Nil
  then show ?case by simp
next
  case (Cons b bodies)
  from Cons.prems obtain xi yi zi
    where idx: "body_indices height width bd b = Inr (xi, yi, zi)"
      and rest: "plot_bodies height width bd bodies
          (lines[unat yi := (lines ! unat yi)[unat xi := z_characters ! unat zi]]) = Inr lines'"
    by (auto split: sum.splits if_splits)
  from Cons.IH [OF rest] show ?case
    by (simp add: length_row_update)
qed

lemma plot_bodies_untouched:
  assumes "plot_bodies height width bd bodies lines = Inr lines'"
    and "\<forall>body \<in> set bodies. \<forall>xk yk zk.
           body_indices height width bd body = Inr (xk, yk, zk) \<longrightarrow> (xk, yk) \<noteq> (xi, yi)"
  shows "lines' ! unat yi ! unat xi = lines ! unat yi ! unat xi"
  using assms
proof (induction bodies arbitrary: lines)
  case Nil
  then show ?case by simp
next
  case (Cons b bodies)
  from Cons.prems(1) obtain xk yk zk
    where idx: "body_indices height width bd b = Inr (xk, yk, zk)"
      and ok: "unat yk < length lines"
      and rest: "plot_bodies height width bd bodies
          (lines[unat yk := (lines ! unat yk)[unat xk := z_characters ! unat zk]]) = Inr lines'"
    by (auto split: sum.splits if_splits)
  from Cons.prems(2) idx have "(xk, yk) \<noteq> (xi, yi)"
    by simp
  then have ne: "unat yk \<noteq> unat yi \<or> unat xk \<noteq> unat xi"
    by (auto simp: word_unat_eq_iff)
  have "lines' ! unat yi ! unat xi =
      lines[unat yk := (lines ! unat yk)[unat xk := z_characters ! unat zk]] ! unat yi ! unat xi"
    using Cons.IH [OF rest] Cons.prems(2) by simp
  also have "\<dots> = lines ! unat yi ! unat xi"
    using ne ok by (auto simp: nth_list_update)
  finally show ?case .
qed

lemma plot_bodies_last_write:
  assumes "plot_bodies height width bd bodies lines = Inr lines'"
    and "j < length bodies"
    and "body_indices height width bd (bodies ! j) = Inr (xi, yi, zj)"
    and "\<forall>k < length bodies. j < k \<longrightarrow> (\<forall>xk yk zk.
           body_indices height width bd (bodies ! k) = Inr (xk, yk, zk) \<longrightarrow> (xk, yk) \<noteq> (xi, yi))"
  shows "lines' ! unat yi ! unat xi = z_characters ! unat zj
       \<and> unat yi < length lines \<and> unat xi < length (lines ! unat yi)"
  using assms
proof (induction bodies arbitrary: lines j)
  case Nil
  then show ?case by simp
next
  case (Cons b bodies)
  from Cons.prems(1) obtain xk yk zk
    where idx: "body_indices height width bd b = Inr (xk, yk, zk)"
      and ok: "unat yk < length lines" "unat xk < length (lines ! unat yk)"
      and rest: "plot_bodies height width bd bodies
          (lines[unat yk := (lines ! unat yk)[unat xk := z_characters ! unat zk]]) = Inr lines'"
    by (auto split: sum.splits if_splits)
  show ?case
  proof (cases j)
    case 0
    with Cons.prems(3) idx have same: "xk = xi" "yk = yi" "zk = zj"
      by simp_all
    have later: "\<forall>body \<in> set bodies. \<forall>xk yk zk.
           body_indices height width bd body = Inr (xk, yk, zk) \<longrightarrow> (xk, yk) \<noteq> (xi, yi)"
    proof
      fix body
      assume "body \<in> set bodies"
      then obtain k where k: "k < length bodies" "body = bodies ! k"
        by (auto simp: in_set_conv_nth)
      from Cons.prems(4) have "\<forall>xk yk zk.
           body_indices height width bd ((b # bodies) ! Suc k) = Inr (xk, yk, zk) \<longrightarrow> (xk, yk) \<noteq> (xi, yi)"
        using k(1) 0 by (metis Suc_less_eq length_Cons zero_less_Suc)
      then show "\<forall>xk yk zk.
           body_indices height width bd body = Inr (xk, yk, zk) \<longrightarrow> (xk, yk) \<noteq> (xi, yi)"
        by (simp add: k(2))
    qed
    have "lines' ! unat yi ! unat xi =
        lines[unat yk := (lines ! unat yk)[unat xk := z_characters ! unat zk]] ! unat yi ! unat xi"
      using rest later by (rule plot_bodies_untouched)
    also have "\<dots> = z_characters ! unat zj"
      using ok by (simp add: same)
    finally show ?thesis
      using ok by (simp add: same)
  next
    case (Suc j')
    have a: "j' < length bodies"
      using Cons.prems(2) Suc by simp
    have b: "body_indices height width bd (bodies ! j') = Inr (xi, yi, zj)"
      using Cons.prems(3) Suc by simp
    have c: "\<forall>k < length bodies. j' < k \<longrightarrow> (\<forall>xk yk zk.
           body_indices height width bd (bodies ! k) = Inr (xk, yk, zk) \<longrightarrow> (xk, yk) \<noteq> (xi, yi))"
    proof (intro allI impI)
      fix k xk yk zk
      assume "k < length bodies" "j' < k"
        and "body_indices height width bd (bodies ! k) = Inr (xk, yk, zk)"
      then have "Suc k < length (b # bodies)" "j < Suc k"
          "body_indices height width bd ((b # bodies) ! Suc k) = Inr (xk, yk, zk)"
        using Suc by simp_all
      with Cons.prems(4) show "(xk, yk) \<noteq> (xi, yi)"
        by blast
    qed
    from Cons.IH [OF rest a b c] show ?thesis
      using ok by (auto simp: nth_list_update split: if_splits)
  qed
qed

lemma foldl_output:
  "foldl (\<lambda>output line. output @ line @ [nl]) acc lines
     = acc @ concat (map (\<lambda>line. line @ [nl]) lines)"
  by (induction lines arbitrary: acc) simp_all

lemma concat_rows_nth:
  assumes "\<forall>r < length lines. length (lines ! r) = w" and "r < length lines" and "c < w"
  shows "concat (map (\<lambda>line. line @ [nl]) lines) ! (r * Suc w + c) = lines ! r ! c"
  using assms
proof (induction lines arbitrary: r)
  case Nil
  then show ?case by simp
next
  case (Cons l lines)
  have l: "length l = w"
    using Cons.prems(1) by (metis length_greater_0_conv list.discI nth_Cons_0)
  have split: "concat (map (\<lambda>line. line @ [nl]) (l # lines))
                 = (l @ [nl]) @ concat (map (\<lambda>line. line @ [nl]) lines)"
    by simp
  show ?case
  proof (cases r)
    case 0
    have "((l @ [nl]) @ concat (map (\<lambda>line. line @ [nl]) lines)) ! c = l ! c"
      using l Cons.prems(3) by (simp add: nth_append)
    then show ?thesis
      unfolding split by (simp add: 0)
  next
    case (Suc r')
    have rows: "\<forall>r < length lines. length (lines ! r) = w"
      using Cons.prems(1) by (metis Suc_less_eq length_Cons nth_Cons_Suc)
    have r': "r' < length lines"
      using Cons.prems(2) Suc by simp
    have idx: "r * Suc w + c = length (l @ [nl]) + (r' * Suc w + c)"
      using l by (simp add: Suc)
    have "concat (map (\<lambda>line. line @ [nl]) (l # lines)) ! (r * Suc w + c)
            = concat (map (\<lambda>line. line @ [nl]) lines) ! (r' * Suc w + c)"
      unfolding split idx by (rule nth_append_length_plus)
    also have "\<dots> = lines ! r' ! c"
      by (rule Cons.IH [OF rows r' Cons.prems(3)])
    finally show ?thesis
      by (simp add: Suc)
  qed
qed

text \<open>
  C7. Let the function return a text, and let body \<open>j\<close> map to column \<open>xi\<close> and row
  \<open>yi\<close>, no body after it in the array mapping to the same cell: \<open>j\<close> is the greatest
  index among the bodies that map there. Then the cell lies in the grid and holds the
  palette character of body \<open>j\<close>, in the grid of lines and in the returned text, where row
  \<open>yi\<close> starts at offset \<open>yi * (width + 1)\<close>. Bodies before \<open>j\<close> in the same cell leave no
  trace.
\<close>

theorem last_write_wins:
  assumes "create_map_of_bodies height width bodies = Inr output"
    and "j < length bodies"
    and "body_indices height width (get_bounds bodies) (bodies ! j) = Inr (xi, yi, zj)"
    and "\<forall>k < length bodies. j < k \<longrightarrow> (\<forall>xk yk zk.
           body_indices height width (get_bounds bodies) (bodies ! k) = Inr (xk, yk, zk)
           \<longrightarrow> (xk, yk) \<noteq> (xi, yi))"
  shows "\<exists>lines. map_lines height width bodies = Inr lines
           \<and> unat yi < unat height \<and> unat xi < unat width
           \<and> lines ! unat yi ! unat xi = z_characters ! unat zj
           \<and> output ! (unat yi * (unat width + 1) + unat xi) = z_characters ! unat zj"
proof -
  define blank where "blank = replicate (unat height) (replicate (unat width) CHR '' '')"
  from assms(1) obtain lines where lines: "map_lines height width bodies = Inr lines"
    and out: "output = foldl (\<lambda>output line. output @ line @ [CHR 0x0A]) [] lines"
    by (auto simp: create_map_of_bodies_def split: sum.splits)
  have plot: "plot_bodies height width (get_bounds bodies) bodies blank = Inr lines"
    using lines by (simp add: map_lines_def blank_def)
  have shape: "length lines = unat height" "\<forall>r < length lines. length (lines ! r) = unat width"
    using plot_bodies_shape [OF plot] by (simp_all add: blank_def)
  from plot_bodies_last_write [OF plot assms(2,3,4)]
  have cell: "lines ! unat yi ! unat xi = z_characters ! unat zj"
    and row: "unat yi < length blank" and col: "unat xi < length (blank ! unat yi)"
    by simp_all
  have rng: "unat yi < unat height" "unat xi < unat width"
  proof -
    show "unat yi < unat height"
      using row by (simp add: blank_def)
    then show "unat xi < unat width"
      using col by (simp add: blank_def)
  qed
  have "concat (map (\<lambda>line. line @ [CHR 0x0A]) lines) ! (unat yi * Suc (unat width) + unat xi)
          = lines ! unat yi ! unat xi"
    using shape rng by (intro concat_rows_nth) simp_all
  then have "output ! (unat yi * (unat width + 1) + unat xi) = lines ! unat yi ! unat xi"
    unfolding out foldl_output by (simp only: Suc_eq_plus1 append_Nil)
  with lines cell rng show ?thesis
    by simp
qed

lemma get_bounds_example:
  "get_bounds example_bodies =
     \<lparr>highest_x = 1, highest_y = 1, highest_z = 1, lowest_x = 0, lowest_y = 0, lowest_z = 0\<rparr>"
proof -
  have "\<not> DBL_MIN < 0" "DBL_MIN < 1" "0 < DBL_MAX"
    using DBL_MIN_pos DBL_MIN_less_1 DBL_MAX_greater_1 by simp_all
  then show ?thesis
    by (simp add: get_bounds_def example_bodies_def resting_def)
qed

lemma example_indices:
  "body_indices 3 4 (get_bounds example_bodies) (resting 0 0 0 1) = Inr (0, 0, 0)"
  "body_indices 3 4 (get_bounds example_bodies) (resting 1 1 1 1) = Inr (3, 2, 15)"
  "body_indices 3 4 (get_bounds example_bodies) (resting 1 1 0 1) = Inr (3, 2, 0)"
  "body_indices 3 4 (get_bounds example_bodies) (resting 0 0 1 1) = Inr (0, 0, 15)"
  by (simp_all add: get_bounds_example body_indices_def m00 m1 m2 m15 z_size_minus_1
      resting_fields)

lemma example_lines:
  "map_lines 3 4 example_bodies = Inr [''@   '', ''    '', ''   .'']"
proof -
  have "plot_bodies 3 4 (get_bounds example_bodies)
          [resting 0 0 0 1, resting 1 1 1 1, resting 1 1 0 1, resting 0 0 1 1]
          [''    '', ''    '', ''    ''] = Inr [''@   '', ''    '', ''   .'']"
    by (simp add: example_indices z_characters_def)
  then show ?thesis
    unfolding map_lines_def blank_3_4 by (simp add: example_bodies_def)
qed

theorem last_write_wins_witness:
  "create_map_of_bodies 3 4 example_bodies =
     Inr (''@   '' @ [CHR 0x0A] @ ''    '' @ [CHR 0x0A] @ ''   .'' @ [CHR 0x0A])
   \<and> body_indices 3 4 (get_bounds example_bodies) (example_bodies ! 1) = Inr (3, 2, 15)
   \<and> body_indices 3 4 (get_bounds example_bodies) (example_bodies ! 2) = Inr (3, 2, 0)
   \<and> (''@   '' @ [CHR 0x0A] @ ''    '' @ [CHR 0x0A] @ ''   .'' @ [CHR 0x0A]) ! (2 * (4 + 1) + 3)
       = z_characters ! 0"
proof -
  have out: "create_map_of_bodies 3 4 example_bodies =
     Inr (''@   '' @ [CHR 0x0A] @ ''    '' @ [CHR 0x0A] @ ''   .'' @ [CHR 0x0A])"
    by (simp add: create_map_of_bodies_def example_lines)
  have len: "2 < length example_bodies"
    by (simp add: example_bodies_def)
  have i1: "body_indices 3 4 (get_bounds example_bodies) (example_bodies ! 1) = Inr (3, 2, 15)"
    and i2: "body_indices 3 4 (get_bounds example_bodies) (example_bodies ! 2) = Inr (3, 2, 0)"
    and i3: "body_indices 3 4 (get_bounds example_bodies) (example_bodies ! 3) = Inr (0, 0, 15)"
    using example_indices by (simp_all add: example_bodies_def)
  have later: "\<forall>k < length example_bodies. 2 < k \<longrightarrow> (\<forall>xk yk zk.
           body_indices 3 4 (get_bounds example_bodies) (example_bodies ! k) = Inr (xk, yk, zk)
           \<longrightarrow> (xk, yk) \<noteq> (3, 2))"
  proof (intro allI impI)
    fix k xk yk zk
    assume "k < length example_bodies" "2 < k"
      and k: "body_indices 3 4 (get_bounds example_bodies) (example_bodies ! k) = Inr (xk, yk, zk)"
    then have "k = 3"
      by (simp add: example_bodies_def)
    with k i3 show "(xk, yk) \<noteq> (3, 2)"
      by simp
  qed
  from last_write_wins [OF out len i2 later] i1 i2 out show ?thesis
    by auto
qed

end
